theory Spec2Isabelle
  imports Complex_Main
begin

section \<open>Python strings and the Unicode tables the program consults\<close>

text \<open>
  A Python \<open>str\<close> is a sequence of Unicode code points, so a string is a list of
  code points and its length counts code points. \<open>asc\<close> writes an ASCII literal.
\<close>

type_synonym codepoint = nat
type_synonym pystr = "codepoint list"

definition asc :: "string \<Rightarrow> pystr" where
  "asc s = map of_char s"

text \<open>
  \<open>str.isalpha\<close>, \<open>str.upper\<close>, \<open>str.strip\<close> and the classes \<open>\d\<close>, \<open>\s\<close>,
  \<open>\w\<close> of \<open>re\<close> read the interpreter's Unicode character database, which is not
  part of the repository. Its rows for code points from 128 on are a parameter; the ASCII
  rows are written out below.
\<close>

record unicode_db =
  ucd_alpha :: "codepoint \<Rightarrow> bool"
  ucd_decimal :: "codepoint \<Rightarrow> bool"
  ucd_alnum :: "codepoint \<Rightarrow> bool"
  ucd_space :: "codepoint \<Rightarrow> bool"
  ucd_upper :: "codepoint \<Rightarrow> pystr"

definition ascii_upper_letter :: "codepoint \<Rightarrow> bool" where
  "ascii_upper_letter c = (65 \<le> c \<and> c \<le> 90)"

definition ascii_lower_letter :: "codepoint \<Rightarrow> bool" where
  "ascii_lower_letter c = (97 \<le> c \<and> c \<le> 122)"

definition ascii_digit :: "codepoint \<Rightarrow> bool" where
  "ascii_digit c = (48 \<le> c \<and> c \<le> 57)"

text \<open>\<open>c.isalpha()\<close>\<close>

definition isalpha :: "unicode_db \<Rightarrow> codepoint \<Rightarrow> bool" where
  "isalpha U c =
     (if c < 128 then ascii_upper_letter c \<or> ascii_lower_letter c else ucd_alpha U c)"



text \<open>The class \<open>\w\<close>: alphanumeric characters and the underscore.\<close>

definition re_word :: "unicode_db \<Rightarrow> codepoint \<Rightarrow> bool" where
  "re_word U c =
     (if c < 128
      then ascii_upper_letter c \<or> ascii_lower_letter c \<or> ascii_digit c \<or> c = 95
      else ucd_alnum U c)"

text \<open>\<open>s.upper()\<close>: one character may become several.\<close>

definition upper_char :: "unicode_db \<Rightarrow> codepoint \<Rightarrow> pystr" where
  "upper_char U c =
     (if c < 128 then (if ascii_lower_letter c then [c - 32] else [c]) else ucd_upper U c)"

definition upper :: "unicode_db \<Rightarrow> pystr \<Rightarrow> pystr" where
  "upper U s = concat (map (upper_char U) s)"

text \<open>\<open>sep.join(parts)\<close>\<close>

fun join :: "pystr \<Rightarrow> pystr list \<Rightarrow> pystr" where
  "join sep [] = []"
| "join sep [x] = x"
| "join sep (x # y # ys) = x @ sep @ join sep (y # ys)"

section \<open>The boolean query composer\<close>

text \<open>
  \<open>itertools.combinations(xs, r)\<close>: the \<open>r\<close>-element subsequences of \<open>xs\<close>, chosen
  by position, in lexicographic order of the positions.
\<close>

fun combinations :: "'a list \<Rightarrow> nat \<Rightarrow> 'a list list" where
  "combinations xs 0 = [[]]"
| "combinations [] (Suc r) = []"
| "combinations (x # xs) (Suc r) = map ((#) x) (combinations xs r) @ combinations xs (Suc r)"

text \<open>The f-string \<open>f'"{k}"'\<close>.\<close>

definition quoted :: "pystr \<Rightarrow> pystr" where
  "quoted k = asc ''\"'' @ k @ asc ''\"''"

text \<open>
  \<open>build_boolean_queries\<close> returns a string, a list of strings, or, when no branch
  is taken, Python's \<open>None\<close>.
\<close>

datatype boolean_query = Query_Str pystr | Query_List "pystr list" | Query_None

definition build_boolean_queries :: "unicode_db \<Rightarrow> pystr list \<Rightarrow> pystr \<Rightarrow> boolean_query" where
  "build_boolean_queries U keywords mode =
     (if keywords = [] then Query_Str []
      else if upper U mode = asc ''OR''
        then Query_Str (join (asc '' OR '') (map quoted keywords))
      else if upper U mode = asc ''AND''
        then Query_Str (join (asc '' AND '') (map quoted keywords))
      else if upper U mode = asc ''COMBO''
        then Query_List (map (join (asc '' AND '')) (combinations keywords 2))
      else Query_None)"

section \<open>The script classifier\<close>

text \<open>
  The nine character classes of \<open>indian_script_patterns\<close>, each a range of code points,
  in the order of the source.
\<close>

definition indian_script_patterns :: "(codepoint \<times> codepoint) list" where
  "indian_script_patterns =
     [(0x0900, 0x097F), (0x0B80, 0x0BFF), (0x0C00, 0x0C7F), (0x0C80, 0x0CFF),
      (0x0D00, 0x0D7F), (0x0A80, 0x0AFF), (0x0A00, 0x0A7F), (0x0980, 0x09FF),
      (0x0B00, 0x0B7F)]"

text \<open>\<open>re.search('[lo-hi]', s)\<close> finds a match when some character of \<open>s\<close> is in the range.\<close>

definition re_search_range :: "codepoint \<times> codepoint \<Rightarrow> pystr \<Rightarrow> bool" where
  "re_search_range pattern s = list_ex (\<lambda>c. fst pattern \<le> c \<and> c \<le> snd pattern) s"

text \<open>
  \<open>is_ascii\<close>: \<open>False\<close> as soon as one pattern is found, otherwise whether every
  alphabetic character is below 128. \<open>True\<close> selects the English prompt
  (ASCII\_COMPATIBLE), \<open>False\<close> the Indian one (INDIC).
\<close>

definition is_ascii :: "unicode_db \<Rightarrow> pystr \<Rightarrow> bool" where
  "is_ascii U s =
     (if list_ex (\<lambda>pattern. re_search_range pattern s) indian_script_patterns then False
      else list_all (\<lambda>c. c < 128) (filter (isalpha U) s))"

section \<open>Errors, JSON values and the two external services\<close>

text \<open>
  The exceptions the calls of the program can raise. Each is a subclass of Python's
  \<open>Exception\<close>.
\<close>

datatype exn =
    RequestException
  | HTTPError nat
  | JSONDecodeError
  | AttributeError
  | TypeError
  | KeyError
  | UnicodeEncodeError
  | ValidationError

definition bind_exn :: "exn + 'a \<Rightarrow> ('a \<Rightarrow> exn + 'b) \<Rightarrow> exn + 'b" where
  "bind_exn m f = (case m of Inl e \<Rightarrow> Inl e | Inr x \<Rightarrow> f x)"

text \<open>What \<open>json.loads\<close> builds. An object keeps its members in order of appearance.\<close>

datatype json =
    JNull
  | JBool bool
  | JNum real
  | JStr pystr
  | JArr "json list"
  | JObj "(pystr \<times> json) list"

text \<open>Python's truth value of a decoded JSON value, as \<open>not news_content\<close> tests it.\<close>

fun truthy :: "json \<Rightarrow> bool" where
  "truthy JNull = False"
| "truthy (JBool b) = b"
| "truthy (JNum x) = (x \<noteq> 0)"
| "truthy (JStr s) = (s \<noteq> [])"
| "truthy (JArr xs) = (xs \<noteq> [])"
| "truthy (JObj kvs) = (kvs \<noteq> [])"

text \<open>
  A response of \<open>requests\<close>: its status code and what \<open>response.json()\<close> gives,
  \<open>None\<close> when the body is not JSON.
\<close>

record http_response =
  status_code :: nat
  body :: "json option"

text \<open>
  The world outside the program: the Unicode tables, \<open>urllib.parse.quote\<close>, and the
  two services behind \<open>requests.get\<close> and \<open>requests.post\<close>. A call either raises or
  returns.
\<close>

record env =
  udb :: unicode_db
  url_quote :: "pystr \<Rightarrow> exn + pystr"
  requests_get :: "pystr \<Rightarrow> exn + http_response"
  requests_post :: "pystr \<Rightarrow> json \<Rightarrow> exn + http_response"

text \<open>\<open>response.raise_for_status()\<close>\<close>

definition raise_for_status :: "http_response \<Rightarrow> exn + unit" where
  "raise_for_status response =
     (if 400 \<le> status_code response \<and> status_code response < 600
      then Inl (HTTPError (status_code response)) else Inr ())"

text \<open>\<open>response.json()\<close>\<close>

definition response_json :: "http_response \<Rightarrow> exn + json" where
  "response_json response =
     (case body response of None \<Rightarrow> Inl JSONDecodeError | Some data \<Rightarrow> Inr data)"

text \<open>
  A decoded object is a \<open>dict\<close>, in which a repeated key holds its last value.
\<close>

definition dict_lookup :: "(pystr \<times> json) list \<Rightarrow> pystr \<Rightarrow> json option" where
  "dict_lookup kvs k = map_of (rev kvs) k"

text \<open>\<open>data.get(key, default)\<close>: only a \<open>dict\<close> has the method.\<close>

definition json_get :: "json \<Rightarrow> pystr \<Rightarrow> json \<Rightarrow> exn + json" where
  "json_get data k dflt =
     (case data of
        JObj kvs \<Rightarrow> Inr (case dict_lookup kvs k of None \<Rightarrow> dflt | Some v \<Rightarrow> v)
      | _ \<Rightarrow> Inl AttributeError)"


section \<open>The keyword source adapter\<close>

text \<open>
  \<open>\b\<close> holds between two neighbours of which exactly one is a word character; the
  start and the end of the string count as a neighbour that is not one.
\<close>

definition is_word_opt :: "unicode_db \<Rightarrow> codepoint option \<Rightarrow> bool" where
  "is_word_opt U x = (case x of None \<Rightarrow> False | Some c \<Rightarrow> re_word U c)"

definition word_boundary :: "unicode_db \<Rightarrow> codepoint option \<Rightarrow> codepoint option \<Rightarrow> bool" where
  "word_boundary U before after = (is_word_opt U before \<noteq> is_word_opt U after)"

text \<open>The class \<open>[a-zA-Z0-9&]\<close>.\<close>

definition keyword_char :: "codepoint \<Rightarrow> bool" where
  "keyword_char c = (ascii_lower_letter c \<or> ascii_upper_letter c \<or> ascii_digit c \<or> c = 38)"

definition char_at :: "pystr \<Rightarrow> nat \<Rightarrow> codepoint option" where
  "char_at s i = (if i < length s then Some (s ! i) else None)"

text \<open>
  One attempt of \<open>\b[A-Z][a-zA-Z0-9&]+\b\<close> at the head \<open>c\<close> of the text, \<open>prev\<close> being
  the character before it. The result is the number of characters \<open>[a-zA-Z0-9&]+\<close>
  takes: the greedy \<open>+\<close> first takes the whole run and gives characters back one at a
  time until the closing \<open>\b\<close> holds.
\<close>

definition match_keyword :: "unicode_db \<Rightarrow> codepoint option \<Rightarrow> codepoint \<Rightarrow> pystr \<Rightarrow> nat option" where
  "match_keyword U prev c cs =
     (if \<not> word_boundary U prev (Some c) then None
      else if \<not> ascii_upper_letter c then None
      else find (\<lambda>n. word_boundary U (char_at cs (n - 1)) (char_at cs n))
             (rev [1..<Suc (length (takeWhile keyword_char cs))]))"

text \<open>
  \<open>re.findall\<close>: the matches from left to right, the search resuming where the last
  match ended.
\<close>

function findall_keywords :: "unicode_db \<Rightarrow> codepoint option \<Rightarrow> pystr \<Rightarrow> pystr list" where
  "findall_keywords U prev [] = []"
| "findall_keywords U prev (c # cs) =
     (case match_keyword U prev c cs of
        None \<Rightarrow> findall_keywords U (Some c) cs
      | Some n \<Rightarrow> (c # take n cs) # findall_keywords U (Some (last (c # take n cs))) (drop n cs))"
  by pat_completeness auto
termination
  by (relation "measure (\<lambda>(U, prev, s). length s)") auto

text \<open>\<open>re.findall\<close> accepts a string only.\<close>

definition re_findall_keywords :: "unicode_db \<Rightarrow> json \<Rightarrow> exn + pystr list" where
  "re_findall_keywords U v =
     (case v of JStr s \<Rightarrow> Inr (findall_keywords U None s) | _ \<Rightarrow> Inl TypeError)"

text \<open>
  \<open>list(dict.fromkeys(xs))\<close>: a key enters the dictionary where it is first seen and
  stays there.
\<close>

definition fromkeys :: "'a list \<Rightarrow> 'a list" where
  "fromkeys xs = foldl (\<lambda>d k. if k \<in> set d then d else d @ [k]) [] xs"

definition default_api_url :: pystr where
  "default_api_url = asc ''http://172.31.32.224:9001/search-keywords''"

text \<open>The f-string \<open>f"{api_url}?keyword={quote(topic)}"\<close>, \<open>q\<close> being the quoted topic.\<close>

definition request_url :: "pystr \<Rightarrow> pystr \<Rightarrow> pystr" where
  "request_url api_url q = api_url @ asc ''?keyword='' @ q"

text \<open>The body of the \<open>try\<close> block of \<open>fetch_keywords_from_api\<close>.\<close>

definition fetch_try :: "env \<Rightarrow> pystr \<Rightarrow> pystr \<Rightarrow> exn + (pystr list \<times> pystr)" where
  "fetch_try E topic api_url =
     bind_exn (url_quote E topic) (\<lambda>q.
     bind_exn (requests_get E (request_url api_url q)) (\<lambda>response.
       if status_code response = 404 then Inr ([], [])
       else
         bind_exn (raise_for_status response) (\<lambda>_.
         bind_exn (response_json response) (\<lambda>data.
         bind_exn (json_get data (asc ''news'') (JStr [])) (\<lambda>news_content.
           if \<not> truthy news_content then Inr ([], [])
           else
             bind_exn (re_findall_keywords (udb E) news_content) (\<lambda>keywords.
               Inr (fromkeys keywords, case news_content of JStr s \<Rightarrow> s | _ \<Rightarrow> [])))))))"

text \<open>
  \<open>except Exception\<close> catches whatever the body raised and returns \<open>[], ""\<close>.
\<close>

definition fetch_keywords_from_api :: "env \<Rightarrow> pystr \<Rightarrow> pystr \<Rightarrow> exn + (pystr list \<times> pystr)" where
  "fetch_keywords_from_api E topic api_url =
     (case fetch_try E topic api_url of
        Inl e \<Rightarrow> Inr ([], [])
      | Inr r \<Rightarrow> Inr r)"

section \<open>The keyword expansion engine\<close>
















section \<open>The pipeline orchestrator\<close>




record query_request =
  topic :: pystr

record query_response =
  "keywords" :: "pystr list"
  boolean_query :: pystr


section \<open>Notions of the specification\<close>

text \<open>
  Case-insensitive agreement with an upper-case ASCII word: every character is the
  expected letter or its lower-case form.
\<close>

definition same_ignoring_case :: "pystr \<Rightarrow> pystr \<Rightarrow> bool" where
  "same_ignoring_case mode expected = list_all2 (\<lambda>c d. c = d \<or> c = d + 32) mode expected"

text \<open>
  The nine Unicode blocks the specification names: Devanagari, Tamil, Telugu, Kannada,
  Malayalam, Gujarati, Gurmukhi, Bengali/Assamese and Odia.
\<close>

definition indic_block :: "codepoint \<Rightarrow> bool" where
  "indic_block c =
     ((0x0900 \<le> c \<and> c \<le> 0x097F) \<or> (0x0B80 \<le> c \<and> c \<le> 0x0BFF) \<or>
      (0x0C00 \<le> c \<and> c \<le> 0x0C7F) \<or> (0x0C80 \<le> c \<and> c \<le> 0x0CFF) \<or>
      (0x0D00 \<le> c \<and> c \<le> 0x0D7F) \<or> (0x0A80 \<le> c \<and> c \<le> 0x0AFF) \<or>
      (0x0A00 \<le> c \<and> c \<le> 0x0A7F) \<or> (0x0980 \<le> c \<and> c \<le> 0x09FF) \<or>
      (0x0B00 \<le> c \<and> c \<le> 0x0B7F))"

text \<open>
  Deduplication in first-seen order: the first element stays, its later copies go, and
  so on for the rest.
\<close>

fun first_seen :: "'a list \<Rightarrow> 'a list" where
  "first_seen [] = []"
| "first_seen (x # xs) = x # first_seen (filter (\<lambda>y. y \<noteq> x) xs)"

text \<open>
  A capitalized word: an upper-case ASCII letter followed by at least one letter, digit
  or ampersand.
\<close>

definition capitalized_word :: "pystr \<Rightarrow> bool" where
  "capitalized_word w =
     (case w of [] \<Rightarrow> False | c # cs \<Rightarrow> ascii_upper_letter c \<and> cs \<noteq> [] \<and> list_all keyword_char cs)"

text \<open>
  A word \<open>k\<close> standing between \<open>pre\<close> and \<open>post\<close> is at word boundaries when
  \<open>\b\<close> holds just before it and just after it.
\<close>

definition at_word_boundaries :: "unicode_db \<Rightarrow> pystr \<Rightarrow> pystr \<Rightarrow> pystr \<Rightarrow> bool" where
  "at_word_boundaries U pre k post =
     (word_boundary U (if pre = [] then None else Some (last pre)) (char_at k 0)
      \<and> word_boundary U (if k = [] then None else Some (last k)) (char_at post 0))"

text \<open>
  A delimiter: a character that is neither a word character nor the ampersand, such as
  a space or a comma.
\<close>

definition delimiter :: "unicode_db \<Rightarrow> codepoint \<Rightarrow> bool" where
  "delimiter U c = (\<not> re_word U c \<and> c \<noteq> 38)"


section \<open>A concrete world for the examples\<close>

text \<open>Unicode tables in which no character beyond ASCII has any property.\<close>

definition plain_db :: unicode_db where
  "plain_db =
     \<lparr>ucd_alpha = (\<lambda>c. False), ucd_decimal = (\<lambda>c. False), ucd_alnum = (\<lambda>c. False),
      ucd_space = (\<lambda>c. False), ucd_upper = (\<lambda>c. [c])\<rparr>"

text \<open>
  A world whose lookup service gives every request the same outcome, and whose model
  service answers every prompt with the same text.
\<close>

definition demo_env :: "exn + http_response \<Rightarrow> pystr \<Rightarrow> env" where
  "demo_env lookup answer =
     \<lparr>udb = plain_db,
      url_quote = (\<lambda>s. Inr s),
      requests_get = (\<lambda>url. lookup),
      requests_post = (\<lambda>url payload. Inr \<lparr>status_code = 200,
                                  body = Some (JObj [(asc ''response'', JStr answer)])\<rparr>)\<rparr>"

text \<open>A response of the lookup service with status 200 and the given news text.\<close>

definition news_response :: "pystr \<Rightarrow> http_response" where
  "news_response news = \<lparr>status_code = 200, body = Some (JObj [(asc ''news'', JStr news)])\<rparr>"

section \<open>Properties of the boolean query composer\<close>

lemma upper_same_ignoring_case:
  "same_ignoring_case mode expected \<Longrightarrow> list_all ascii_upper_letter expected \<Longrightarrow>
   upper U mode = expected"
  unfolding same_ignoring_case_def
  by (induction mode expected rule: list_all2_induct)
     (auto simp: upper_def upper_char_def ascii_upper_letter_def ascii_lower_letter_def)

lemma upper_COMBO: "upper U (asc ''COMBO'') = asc ''COMBO''"
  by (simp add: asc_def upper_def upper_char_def ascii_lower_letter_def)

lemma mode_words_differ:
  "asc ''OR'' \<noteq> asc ''AND''" "asc ''COMBO'' \<noteq> asc ''OR''" "asc ''COMBO'' \<noteq> asc ''AND''"
  by (simp_all add: asc_def)

lemma combinations_1: "combinations xs (Suc 0) = map (\<lambda>x. [x]) xs"
  by (induction xs) simp_all

text \<open>
  The pairs that \<open>combinations\<close> enumerates are \<open>n (n - 1) / 2\<close> in number, and each
  has two members.
\<close>

lemma combinations_2_length: "2 * length (combinations xs 2) = length xs * (length xs - 1)"
proof (induction xs)
  case Nil
  show ?case by (simp add: numeral_2_eq_2)
next
  case (Cons x xs)
  then show ?case
    by (cases xs) (simp_all add: numeral_2_eq_2 combinations_1 algebra_simps)
qed

lemma combinations_member_length: "c \<in> set (combinations xs r) \<Longrightarrow> length c = r"
  by (induction xs r arbitrary: c rule: combinations.induct) auto

text \<open>
  C1. In COMBO mode the composer enumerates the pairs in combinatorial order, but joins
  the two keywords of a pair as they are: unlike the OR and AND branches it does not put
  them in double quotes. For \<open>["A", "B", "C"]\<close> it returns \<open>A AND B\<close>, \<open>A AND C\<close>,
  \<open>B AND C\<close>, not the three strings with quoted keywords.
\<close>

theorem compose_combo_unquoted:
  "build_boolean_queries U [asc ''A'', asc ''B'', asc ''C''] (asc ''COMBO'')
     = Query_List [asc ''A AND B'', asc ''A AND C'', asc ''B AND C'']
   \<and> build_boolean_queries U [asc ''A'', asc ''B'', asc ''C''] (asc ''COMBO'')
     \<noteq> Query_List [asc ''\"A\" AND \"B\"'', asc ''\"A\" AND \"C\"'', asc ''\"B\" AND \"C\"'']"
  by (simp add: build_boolean_queries_def asc_def upper_def upper_char_def
      ascii_lower_letter_def numeral_2_eq_2)

text \<open>
  C7. For a non-empty keyword list, a mode that reads OR in any mix of upper and lower
  case gives the keywords, each in double quotes, joined with \<open>" OR "\<close>; a mode that reads
  AND gives the same join with \<open>" AND "\<close>. In particular \<open>["A", "B"]\<close> gives
  \<open>"A" OR "B"\<close> and \<open>"A" AND "B"\<close>, also for the modes \<open>or\<close> and \<open>and\<close>.
\<close>

theorem compose_or_and:
  assumes "ks \<noteq> []"
  shows "(same_ignoring_case mode (asc ''OR'') \<longrightarrow>
            build_boolean_queries U ks mode = Query_Str (join (asc '' OR '') (map quoted ks)))
       \<and> (same_ignoring_case mode (asc ''AND'') \<longrightarrow>
            build_boolean_queries U ks mode = Query_Str (join (asc '' AND '') (map quoted ks)))
       \<and> build_boolean_queries U [asc ''A'', asc ''B''] (asc ''OR'') = Query_Str (asc ''\"A\" OR \"B\"'')
       \<and> build_boolean_queries U [asc ''A'', asc ''B''] (asc ''AND'') = Query_Str (asc ''\"A\" AND \"B\"'')
       \<and> build_boolean_queries U [asc ''A'', asc ''B''] (asc ''or'') = Query_Str (asc ''\"A\" OR \"B\"'')
       \<and> build_boolean_queries U [asc ''A'', asc ''B''] (asc ''and'') = Query_Str (asc ''\"A\" AND \"B\"'')"
proof -
  have up: "list_all ascii_upper_letter (asc ''OR'')" "list_all ascii_upper_letter (asc ''AND'')"
    by (simp_all add: asc_def ascii_upper_letter_def)
  have or_case: "build_boolean_queries U ks mode = Query_Str (join (asc '' OR '') (map quoted ks))"
    if "same_ignoring_case mode (asc ''OR'')"
    using assms upper_same_ignoring_case [OF that up(1)] by (simp add: build_boolean_queries_def)
  have and_case: "build_boolean_queries U ks mode = Query_Str (join (asc '' AND '') (map quoted ks))"
    if "same_ignoring_case mode (asc ''AND'')"
    using assms upper_same_ignoring_case [OF that up(2)] mode_words_differ(1)
    by (simp add: build_boolean_queries_def)
  have ex: "build_boolean_queries U [asc ''A'', asc ''B''] (asc ''OR'') = Query_Str (asc ''\"A\" OR \"B\"'')"
    "build_boolean_queries U [asc ''A'', asc ''B''] (asc ''AND'') = Query_Str (asc ''\"A\" AND \"B\"'')"
    "build_boolean_queries U [asc ''A'', asc ''B''] (asc ''or'') = Query_Str (asc ''\"A\" OR \"B\"'')"
    "build_boolean_queries U [asc ''A'', asc ''B''] (asc ''and'') = Query_Str (asc ''\"A\" AND \"B\"'')"
    by (simp_all add: build_boolean_queries_def asc_def upper_def upper_char_def
        ascii_lower_letter_def quoted_def)
  from or_case and_case ex show ?thesis by blast
qed

theorem compose_or_and_witness:
  "[asc ''India'', asc ''US trade''] \<noteq> []
   \<and> same_ignoring_case (asc ''Or'') (asc ''OR'')
   \<and> same_ignoring_case (asc ''anD'') (asc ''AND'')
   \<and> build_boolean_queries plain_db [asc ''India'', asc ''US trade''] (asc ''Or'')
       = Query_Str (asc ''\"India\" OR \"US trade\"'')
   \<and> build_boolean_queries plain_db [asc ''India'', asc ''US trade''] (asc ''anD'')
       = Query_Str (asc ''\"India\" AND \"US trade\"'')"
proof -
  have ne: "[asc ''India'', asc ''US trade''] \<noteq> []" by simp
  have c1: "same_ignoring_case (asc ''Or'') (asc ''OR'')"
    and c2: "same_ignoring_case (asc ''anD'') (asc ''AND'')"
    by (simp_all add: same_ignoring_case_def asc_def)
  from compose_or_and [OF ne, of "asc ''Or''" plain_db] c1
  have r1: "build_boolean_queries plain_db [asc ''India'', asc ''US trade''] (asc ''Or'')
       = Query_Str (join (asc '' OR '') (map quoted [asc ''India'', asc ''US trade'']))"
    by blast
  from compose_or_and [OF ne, of "asc ''anD''" plain_db] c2
  have r2: "build_boolean_queries plain_db [asc ''India'', asc ''US trade''] (asc ''anD'')
       = Query_Str (join (asc '' AND '') (map quoted [asc ''India'', asc ''US trade'']))"
    by blast
  have j1: "join (asc '' OR '') (map quoted [asc ''India'', asc ''US trade''])
              = asc ''\"India\" OR \"US trade\"''"
    and j2: "join (asc '' AND '') (map quoted [asc ''India'', asc ''US trade''])
              = asc ''\"India\" AND \"US trade\"''"
    by (simp_all add: quoted_def asc_def)
  from ne c1 c2 r1 r2 j1 j2 show ?thesis by simp
qed

text \<open>
  C8. Whatever the mode, the composer returns the empty string for an empty keyword
  list: the test of the list comes before any look at the mode.
\<close>

theorem compose_empty: "build_boolean_queries U [] mode = Query_Str []"
  by (simp add: build_boolean_queries_def)



text \<open>
  C10. For a list of exactly one keyword the COMBO mode returns the empty list of pair
  strings, which is not the empty string that an empty keyword list gives.
\<close>

theorem compose_combo_single:
  "build_boolean_queries U [k] (asc ''COMBO'') = Query_List []
   \<and> build_boolean_queries U [k] (asc ''COMBO'') \<noteq> build_boolean_queries U [] (asc ''COMBO'')"
  using mode_words_differ
  by (simp add: build_boolean_queries_def upper_COMBO numeral_2_eq_2)

section \<open>Properties of the script classifier\<close>

lemma pattern_hit_indic_block:
  "list_ex (\<lambda>pattern. fst pattern \<le> c \<and> c \<le> snd pattern) indian_script_patterns
     = indic_block c"
  unfolding indian_script_patterns_def indic_block_def list_ex_Cons_iff list_ex_Nil_iff
    fst_conv snd_conv
  by (simp only: simp_thms)

lemma list_ex_swap:
  "list_ex (\<lambda>p. list_ex (\<lambda>c. P p c) s) ps = (\<exists>c\<in>set s. list_ex (\<lambda>p. P p c) ps)"
  unfolding list_ex_iff by blast

lemma indic_block_patterns:
  "list_ex (\<lambda>pattern. re_search_range pattern s) indian_script_patterns
     = (\<exists>c\<in>set s. indic_block c)"
  unfolding re_search_range_def list_ex_swap pattern_hit_indic_block ..

lemma is_ascii_iff:
  "is_ascii U s = (\<not> (\<exists>c\<in>set s. indic_block c) \<and> (\<forall>c\<in>set s. isalpha U c \<longrightarrow> c < 128))"
  unfolding is_ascii_def indic_block_patterns by (auto simp: list_all_iff)

text \<open>
  C5 fails as stated. The search for an Indic character looks at every character,
  alphabetic or not: U+0966, the Devanagari digit zero, is not alphabetic, and the text
  made of it is INDIC while the empty text is ASCII\_COMPATIBLE.
\<close>

theorem is_ascii_indic_digit:
  "\<not> isalpha plain_db 0x0966 \<and> is_ascii plain_db [0x0966] = False \<and> is_ascii plain_db [] = True"
  by code_simp

text \<open>
  C5, as amended. The classifier answers INDIC (\<open>False\<close>) as soon as one character of the
  text lies in one of the nine Indic blocks. Otherwise it answers ASCII\_COMPATIBLE
  (\<open>True\<close>) exactly when every alphabetic character is below 128. A character that is
  neither alphabetic nor in an Indic block never affects the answer: deleting all of
  them leaves it unchanged. The function is total. \<open>Trump tariff\<close> is ASCII\_COMPATIBLE
  and the Devanagari example is INDIC, whatever the Unicode tables.
\<close>

theorem is_ascii_classifies:
  "((\<exists>c\<in>set s. indic_block c) \<longrightarrow> is_ascii U s = False)
   \<and> (\<not> (\<exists>c\<in>set s. indic_block c) \<longrightarrow>
        (is_ascii U s = True \<longleftrightarrow> (\<forall>c\<in>set s. isalpha U c \<longrightarrow> c < 128)))
   \<and> is_ascii U (filter (\<lambda>c. isalpha U c \<or> indic_block c) s) = is_ascii U s
   \<and> is_ascii U (asc ''Trump tariff'') = True
   \<and> is_ascii U [2332, 2368, 2319, 2360, 2335, 2368, 32, 2348, 2342, 2354, 2366, 2357] = False"
proof -
  have a: "(\<exists>c\<in>set s. indic_block c) \<longrightarrow> is_ascii U s = False"
    by (simp add: is_ascii_iff)
  have b: "\<not> (\<exists>c\<in>set s. indic_block c) \<longrightarrow>
        (is_ascii U s = True \<longleftrightarrow> (\<forall>c\<in>set s. isalpha U c \<longrightarrow> c < 128))"
    by (simp add: is_ascii_iff)
  have c: "is_ascii U (filter (\<lambda>c. isalpha U c \<or> indic_block c) s) = is_ascii U s"
    by (auto simp: is_ascii_iff)
  have d: "is_ascii U (asc ''Trump tariff'') = True"
    by (simp add: is_ascii_iff asc_def indic_block_def)
  have e: "is_ascii U [2332, 2368, 2319, 2360, 2335, 2368, 32, 2348, 2342, 2354, 2366, 2357] = False"
    by (simp add: is_ascii_iff indic_block_def)
  from a b c d e show ?thesis by blast
qed

theorem is_ascii_classifies_witness:
  "(\<exists>c\<in>set [2350, 2379, 2342, 2368]. indic_block c)
   \<and> is_ascii plain_db [2350, 2379, 2342, 2368] = False
   \<and> \<not> (\<exists>c\<in>set (asc ''caf'' @ [233]). indic_block c)
   \<and> \<not> (\<exists>c\<in>set (asc ''GST 2.0!''). indic_block c)
   \<and> is_ascii plain_db (asc ''GST 2.0!'') = True"
proof -
  have h1: "\<exists>c\<in>set [2350, 2379, 2342, 2368]. indic_block c"
    by (simp add: indic_block_def)
  have h2: "\<not> (\<exists>c\<in>set (asc ''GST 2.0!''). indic_block c)"
    by (simp add: indic_block_def asc_def)
  have h3: "\<forall>c\<in>set (asc ''GST 2.0!''). isalpha plain_db c \<longrightarrow> c < 128"
    by (simp add: asc_def)
  have h4: "\<not> (\<exists>c\<in>set (asc ''caf'' @ [233]). indic_block c)"
    by (simp add: indic_block_def asc_def)
  from is_ascii_classifies [of "[2350, 2379, 2342, 2368]" plain_db] h1
  have r1: "is_ascii plain_db [2350, 2379, 2342, 2368] = False" by blast
  from is_ascii_classifies [of "asc ''GST 2.0!''" plain_db] h2 h3
  have r2: "is_ascii plain_db (asc ''GST 2.0!'') = True" by blast
  from h1 h2 h4 r1 r2 show ?thesis by blast
qed

section \<open>Properties of the keyword source adapter\<close>

lemma find_SomeD: "find P xs = Some x \<Longrightarrow> x \<in> set xs \<and> P x"
  by (induction xs) (auto split: if_splits)

lemma match_keyword_SomeD:
  assumes "match_keyword U prev c cs = Some n"
  shows "ascii_upper_letter c" "1 \<le> n" "n \<le> length (takeWhile keyword_char cs)"
    "word_boundary U prev (Some c)"
    "word_boundary U (char_at cs (n - 1)) (char_at cs n)"
proof -
  from assms have b: "word_boundary U prev (Some c)" and u: "ascii_upper_letter c"
    and f: "find (\<lambda>n. word_boundary U (char_at cs (n - 1)) (char_at cs n))
             (rev [1..<Suc (length (takeWhile keyword_char cs))]) = Some n"
    by (auto simp: match_keyword_def split: if_splits)
  from find_SomeD [OF f] have m: "n \<in> set (rev [1..<Suc (length (takeWhile keyword_char cs))])"
    and w: "word_boundary U (char_at cs (n - 1)) (char_at cs n)"
    by blast+
  from m have "n \<in> {1..<Suc (length (takeWhile keyword_char cs))}"
    unfolding set_rev set_upt .
  then have "1 \<le> n" "n \<le> length (takeWhile keyword_char cs)" by simp_all
  with b u w show "ascii_upper_letter c" "1 \<le> n" "n \<le> length (takeWhile keyword_char cs)"
    "word_boundary U prev (Some c)"
    "word_boundary U (char_at cs (n - 1)) (char_at cs n)" by simp_all
qed

lemma take_takeWhile_all:
  "n \<le> length (takeWhile P xs) \<Longrightarrow> list_all P (take n xs)"
proof (induction xs arbitrary: n)
  case Nil
  then show ?case by simp
next
  case (Cons x xs)
  then show ?case by (cases n) (auto split: if_splits)
qed

lemma match_keyword_capitalized:
  assumes "match_keyword U prev c cs = Some n"
  shows "capitalized_word (c # take n cs)"
proof -
  note m = match_keyword_SomeD [OF assms]
  have "length (takeWhile keyword_char cs) \<le> length cs" by (rule length_takeWhile_le)
  with m(2,3) have "take n cs \<noteq> []" by auto
  moreover from m(3) have "list_all keyword_char (take n cs)" by (rule take_takeWhile_all)
  ultimately show ?thesis using m(1) by (simp add: capitalized_word_def)
qed

lemma match_keyword_ends:
  assumes "match_keyword U prev c cs = Some n"
  shows "word_boundary U (Some (last (c # take n cs))) (char_at (drop n cs) 0)"
proof -
  note m = match_keyword_SomeD [OF assms]
  have le: "n \<le> length cs" using m(3) length_takeWhile_le [of keyword_char cs] by simp
  from m(2) le have ne: "take n cs \<noteq> []" by auto
  then have "last (c # take n cs) = last (take n cs)" by simp
  also have "\<dots> = cs ! (n - 1)" using ne m(2) le by (simp add: last_conv_nth min_absorb2)
  finally have a: "char_at cs (n - 1) = Some (last (c # take n cs))"
    using m(2) le by (simp add: char_at_def)
  have b: "char_at cs n = char_at (drop n cs) 0"
    using le by (auto simp: char_at_def)
  from m(5) a b show ?thesis by simp
qed

lemma findall_keywords_bounded:
  "k \<in> set (findall_keywords U prev s) \<Longrightarrow>
     capitalized_word k \<and>
     (\<exists>pre post. s = pre @ k @ post
        \<and> word_boundary U (if pre = [] then prev else Some (last pre)) (char_at k 0)
        \<and> word_boundary U (Some (last k)) (char_at post 0))"
proof (induction U prev s rule: findall_keywords.induct)
  case (1 U prev)
  then show ?case by simp
next
  case (2 U prev c cs)
  show ?case
  proof (cases "match_keyword U prev c cs")
    case None
    with 2 obtain pre post where ck: "capitalized_word k" and s: "cs = pre @ k @ post"
      and b1: "word_boundary U (if pre = [] then Some c else Some (last pre)) (char_at k 0)"
      and b2: "word_boundary U (Some (last k)) (char_at post 0)"
      by auto
    have "c # cs = (c # pre) @ k @ post" using s by simp
    moreover have "word_boundary U (if c # pre = [] then prev else Some (last (c # pre))) (char_at k 0)"
      using b1 by (cases "pre = []") simp_all
    ultimately show ?thesis using ck b2 by blast
  next
    case (Some n)
    from 2(3) Some have "k = c # take n cs \<or>
        k \<in> set (findall_keywords U (Some (last (c # take n cs))) (drop n cs))" by simp
    then show ?thesis
    proof
      assume k: "k = c # take n cs"
      have "c # cs = [] @ k @ drop n cs" using k by simp
      moreover have "word_boundary U (if ([]::pystr) = [] then prev else Some (last [])) (char_at k 0)"
        using match_keyword_SomeD(4) [OF Some] k by (simp add: char_at_def)
      moreover have "word_boundary U (Some (last k)) (char_at (drop n cs) 0)"
        using match_keyword_ends [OF Some] k by simp
      ultimately show ?thesis using match_keyword_capitalized [OF Some] k by blast
    next
      assume "k \<in> set (findall_keywords U (Some (last (c # take n cs))) (drop n cs))"
      with 2(2) [OF Some] obtain pre post
        where ck: "capitalized_word k" and d: "drop n cs = pre @ k @ post"
          and b1: "word_boundary U (if pre = [] then Some (last (c # take n cs)) else Some (last pre))
                     (char_at k 0)"
          and b2: "word_boundary U (Some (last k)) (char_at post 0)"
        by auto
      have "c # cs = (c # take n cs) @ drop n cs" by simp
      also have "\<dots> = (c # take n cs @ pre) @ k @ post" using d by simp
      finally have s: "c # cs = (c # take n cs @ pre) @ k @ post" .
      have "word_boundary U
              (if c # take n cs @ pre = [] then prev else Some (last (c # take n cs @ pre)))
              (char_at k 0)"
        using b1 by (cases "pre = []") simp_all
      with s ck b2 show ?thesis by blast
    qed
  qed
qed

lemma findall_keywords_at_boundaries:
  assumes "k \<in> set (findall_keywords U None s)"
  shows "capitalized_word k \<and> (\<exists>pre post. s = pre @ k @ post \<and> at_word_boundaries U pre k post)"
proof -
  from findall_keywords_bounded [OF assms] obtain pre post
    where ck: "capitalized_word k" and s: "s = pre @ k @ post"
      and b1: "word_boundary U (if pre = [] then None else Some (last pre)) (char_at k 0)"
      and b2: "word_boundary U (Some (last k)) (char_at post 0)"
    by blast
  from ck have "k \<noteq> []" by (auto simp: capitalized_word_def)
  with b1 b2 have "at_word_boundaries U pre k post" by (simp add: at_word_boundaries_def)
  with ck s show ?thesis by blast
qed

lemma fromkeys_foldl:
  "foldl (\<lambda>d k. if k \<in> set d then d else d @ [k]) d xs
     = d @ first_seen (filter (\<lambda>x. x \<notin> set d) xs)"
proof (induction xs arbitrary: d)
  case Nil
  show ?case by simp
next
  case (Cons x xs)
  show ?case
  proof (cases "x \<in> set d")
    case True
    then show ?thesis by (simp add: Cons.IH)
  next
    case False
    have "filter (\<lambda>y. y \<notin> set (d @ [x])) xs = filter (\<lambda>y. y \<noteq> x) (filter (\<lambda>y. y \<notin> set d) xs)"
      by (induction xs) auto
    with False show ?thesis by (simp add: Cons.IH)
  qed
qed

lemma fromkeys_first_seen: "fromkeys xs = first_seen xs"
  using fromkeys_foldl [of "[]" xs] by (simp add: fromkeys_def)

lemma set_first_seen: "set (first_seen xs) = set xs"
  by (induction xs rule: first_seen.induct) auto

lemma distinct_first_seen: "distinct (first_seen xs)"
  by (induction xs rule: first_seen.induct) (auto simp: set_first_seen)


lemma keyword_char_word: "keyword_char c \<Longrightarrow> c \<noteq> 38 \<Longrightarrow> re_word U c"
  by (auto simp: keyword_char_def re_word_def ascii_lower_letter_def ascii_upper_letter_def
      ascii_digit_def)

lemma upper_letter_word: "ascii_upper_letter c \<Longrightarrow> re_word U c"
  by (auto simp: re_word_def ascii_upper_letter_def)

lemma delimiter_not_keyword_char: "delimiter U c \<Longrightarrow> \<not> keyword_char c"
  using keyword_char_word [of c U] by (auto simp: delimiter_def)

lemma match_keyword_whole_word:
  assumes cap: "capitalized_word (c # ws)" and lw: "last (c # ws) \<noteq> 38"
    and post: "post = [] \<or> delimiter U (hd post)"
    and prev: "\<not> is_word_opt U prev"
  shows "match_keyword U prev c (ws @ post) = Some (length ws)"
proof -
  from cap have up: "ascii_upper_letter c" and ne: "ws \<noteq> []" and all: "list_all keyword_char ws"
    by (simp_all add: capitalized_word_def)
  from post have "takeWhile keyword_char post = []"
    by (cases post) (auto dest: delimiter_not_keyword_char)
  with all have run: "takeWhile keyword_char (ws @ post) = ws"
    by (simp add: list_all_iff)
  from ne obtain m where m: "length ws = Suc m" by (cases ws) auto
  from ne lw have lw': "last ws \<noteq> 38" by simp
  from ne all have "keyword_char (last ws)" by (simp add: list_all_iff)
  with lw' have wl: "re_word U (last ws)" by (simp add: keyword_char_word)
  have before: "char_at (ws @ post) (length ws - 1) = Some (last ws)"
    using ne m by (simp add: char_at_def nth_append last_conv_nth)
  have after: "\<not> is_word_opt U (char_at (ws @ post) (length ws))"
    using post by (cases post) (auto simp: char_at_def is_word_opt_def delimiter_def nth_append)
  have bnd: "word_boundary U (char_at (ws @ post) (length ws - 1)) (char_at (ws @ post) (length ws))"
    using before after wl by (simp add: word_boundary_def is_word_opt_def)
  have "rev [1..<Suc (length ws)] = length ws # rev [1..<length ws]"
    using m by simp
  with bnd have "find (\<lambda>n. word_boundary U (char_at (ws @ post) (n - 1)) (char_at (ws @ post) n))
             (rev [1..<Suc (length ws)]) = Some (length ws)"
    by simp
  moreover have "word_boundary U prev (Some c)"
    using prev up by (simp add: word_boundary_def is_word_opt_def upper_letter_word)
  ultimately show ?thesis using up run by (simp add: match_keyword_def)
qed

lemma match_keyword_stays_before:
  assumes m: "match_keyword U prev c cs = Some n"
    and s: "c # cs = pre @ rest" and pre: "pre \<noteq> []" and d: "delimiter U (last pre)"
  shows "\<exists>pre'. pre' \<noteq> [] \<and> drop n cs = pre' @ rest \<and> last pre' = last pre"
proof -
  note mk = match_keyword_SomeD [OF m]
  from pre s obtain pre0 where p0: "pre = c # pre0" and cs: "cs = pre0 @ rest"
    by (cases pre) auto
  have "\<not> delimiter U c" using mk(1) by (simp add: delimiter_def upper_letter_word)
  with d p0 have ne0: "pre0 \<noteq> []" by auto
  with d p0 have nk: "\<not> keyword_char (last pre0)"
    by (auto dest: delimiter_not_keyword_char)
  from ne0 have mem: "last pre0 \<in> set pre0" by simp
  from mem nk have tw: "takeWhile keyword_char (pre0 @ rest) = takeWhile keyword_char pre0"
    by (rule takeWhile_append1)
  have "takeWhile keyword_char pre0 \<noteq> pre0"
    using mem nk by auto
  moreover have "length (takeWhile keyword_char pre0) \<le> length pre0"
    by (rule length_takeWhile_le)
  moreover have "length (takeWhile keyword_char pre0) = length pre0 \<Longrightarrow>
      takeWhile keyword_char pre0 = pre0"
    by (metis takeWhile_dropWhile_id append_eq_append_conv append_Nil2)
  ultimately have "length (takeWhile keyword_char pre0) < length pre0"
    by (cases "length (takeWhile keyword_char pre0) = length pre0") auto
  with mk(3) cs tw have lt: "n < length pre0" by simp
  then have "drop n cs = drop n pre0 @ rest" using cs by simp
  moreover from lt have "drop n pre0 \<noteq> []" by simp
  moreover from lt have "last (drop n pre0) = last pre0" by simp
  ultimately show ?thesis using p0 ne0 by auto
qed

lemma findall_keywords_complete:
  assumes "capitalized_word w" and "last w \<noteq> 38"
    and "post = [] \<or> delimiter U (hd post)"
    and "pre = [] \<longrightarrow> \<not> is_word_opt U prev"
    and "pre \<noteq> [] \<longrightarrow> delimiter U (last pre)"
    and "s = pre @ w @ post"
  shows "w \<in> set (findall_keywords U prev s)"
  using assms
proof (induction U prev s arbitrary: pre rule: findall_keywords.induct)
  case (1 U prev)
  then show ?case by (simp add: capitalized_word_def)
next
  case (2 U prev c cs)
  show ?case
  proof (cases pre)
    case Nil
    with 2(8) obtain ws where w: "w = c # ws" and cs: "cs = ws @ post"
      by (cases w) (use 2(3) in \<open>auto simp: capitalized_word_def\<close>)
    from 2(6) Nil have "\<not> is_word_opt U prev" by simp
    with 2(3,4,5) w have "match_keyword U prev c (ws @ post) = Some (length ws)"
      by (intro match_keyword_whole_word) simp_all
    with w cs show ?thesis by simp
  next
    case (Cons p pre0)
    with 2(8) have c: "p = c" and cs: "cs = pre0 @ w @ post" by simp_all
    show ?thesis
    proof (cases "match_keyword U prev c cs")
      case None
      have a: "pre0 = [] \<longrightarrow> \<not> is_word_opt U (Some c)"
        using 2(7) Cons c by (auto simp: is_word_opt_def delimiter_def)
      have b: "pre0 \<noteq> [] \<longrightarrow> delimiter U (last pre0)"
        using 2(7) Cons by auto
      from 2(1) [OF None 2(3,4,5) a b cs] None show ?thesis by simp
    next
      case (Some n)
      from 2(7) Cons have d: "delimiter U (last pre)" and ne: "pre \<noteq> []" by simp_all
      from match_keyword_stays_before [OF Some 2(8) ne d]
      obtain pre' where p': "pre' \<noteq> []" "drop n cs = pre' @ w @ post" "last pre' = last pre"
        by blast
      have a: "pre' = [] \<longrightarrow> \<not> is_word_opt U (Some (last (c # take n cs)))"
        using p'(1) by simp
      have b: "pre' \<noteq> [] \<longrightarrow> delimiter U (last pre')"
        using p'(3) d by simp
      from 2(2) [OF Some 2(3,4,5) a b p'(2)] Some show ?thesis by simp
    qed
  qed
qed


lemma fetch_try_success:
  assumes "url_quote E t = Inr q"
    and "requests_get E (request_url url q) = Inr resp"
    and "status_code resp \<noteq> 404"
    and "\<not> (400 \<le> status_code resp \<and> status_code resp < 600)"
    and "body resp = Some (JObj kvs)"
    and "dict_lookup kvs (asc ''news'') = Some (JStr content)"
    and "content \<noteq> []"
  shows "fetch_try E t url = Inr (fromkeys (findall_keywords (udb E) None content), content)"
  using assms
  by (simp add: fetch_try_def bind_exn_def raise_for_status_def response_json_def json_get_def
      re_findall_keywords_def)

lemma fetch_returns: "\<exists>r. fetch_keywords_from_api E t url = Inr r"
  by (cases "fetch_try E t url") (simp_all add: fetch_keywords_from_api_def)

lemma fetch_empty_if_raised:
  "fetch_try E t url = Inl e \<Longrightarrow> fetch_keywords_from_api E t url = Inr ([], [])"
  by (simp add: fetch_keywords_from_api_def)

lemma fetch_same_if_returned:
  "fetch_try E t url = Inr r \<Longrightarrow> fetch_keywords_from_api E t url = Inr r"
  by (simp add: fetch_keywords_from_api_def)

text \<open>
  C3. The adapter never raises: whatever the topic and whatever the lookup service does,
  it returns a pair. It returns \<open>([], "")\<close> when quoting the topic fails, when the request
  raises (transport failure, timeout), when the status is 404 or any other error status,
  when the body is not JSON or not an object, when the object has no \<open>news\<close> member, and
  when that member is empty or is not a string.
\<close>

theorem fetch_never_raises:
  "(\<exists>r. fetch_keywords_from_api E t url = Inr r)
   \<and> (url_quote E t = Inl e \<longrightarrow> fetch_keywords_from_api E t url = Inr ([], []))
   \<and> (url_quote E t = Inr q \<and> requests_get E (request_url url q) = Inl e
        \<longrightarrow> fetch_keywords_from_api E t url = Inr ([], []))
   \<and> (url_quote E t = Inr q \<and> requests_get E (request_url url q) = Inr resp
        \<longrightarrow> (status_code resp = 404 \<longrightarrow> fetch_keywords_from_api E t url = Inr ([], []))
          \<and> (400 \<le> status_code resp \<and> status_code resp < 600
                \<longrightarrow> fetch_keywords_from_api E t url = Inr ([], []))
          \<and> (body resp = None \<longrightarrow> fetch_keywords_from_api E t url = Inr ([], []))
          \<and> (body resp = Some data \<and> (\<forall>kvs. data \<noteq> JObj kvs)
                \<longrightarrow> fetch_keywords_from_api E t url = Inr ([], []))
          \<and> (body resp = Some (JObj kvs) \<and> dict_lookup kvs (asc ''news'') = None
                \<longrightarrow> fetch_keywords_from_api E t url = Inr ([], []))
          \<and> (body resp = Some (JObj kvs) \<and> dict_lookup kvs (asc ''news'') = Some v
                \<and> (\<not> truthy v \<or> (\<forall>s. v \<noteq> JStr s))
                \<longrightarrow> fetch_keywords_from_api E t url = Inr ([], [])))"
proof -
  let ?none = "fetch_keywords_from_api E t url = Inr ([], [])"
  have quote_raised: ?none if "url_quote E t = Inl e"
    using that by (simp add: fetch_keywords_from_api_def fetch_try_def bind_exn_def)
  have get_raised: ?none if "url_quote E t = Inr q" "requests_get E (request_url url q) = Inl e"
    using that by (simp add: fetch_keywords_from_api_def fetch_try_def bind_exn_def)
  have not_found: ?none
    if "url_quote E t = Inr q" "requests_get E (request_url url q) = Inr resp"
      "status_code resp = 404"
    using that by (simp add: fetch_keywords_from_api_def fetch_try_def bind_exn_def)
  have bad_status: ?none
    if "url_quote E t = Inr q" "requests_get E (request_url url q) = Inr resp"
      "400 \<le> status_code resp \<and> status_code resp < 600"
    using that
    by (simp add: fetch_keywords_from_api_def fetch_try_def bind_exn_def raise_for_status_def)
  have no_json: ?none
    if "url_quote E t = Inr q" "requests_get E (request_url url q) = Inr resp"
      "body resp = None"
    using that
    by (simp add: fetch_keywords_from_api_def fetch_try_def bind_exn_def raise_for_status_def
        response_json_def)
  have not_object: ?none
    if "url_quote E t = Inr q" "requests_get E (request_url url q) = Inr resp"
      "body resp = Some data" "\<forall>kvs. data \<noteq> JObj kvs"
    using that
    by (cases data)
      (simp_all add: fetch_keywords_from_api_def fetch_try_def bind_exn_def raise_for_status_def
        response_json_def json_get_def)
  have no_field: ?none
    if "url_quote E t = Inr q" "requests_get E (request_url url q) = Inr resp"
      "body resp = Some (JObj kvs)" "dict_lookup kvs (asc ''news'') = None"
    using that
    by (simp add: fetch_keywords_from_api_def fetch_try_def bind_exn_def raise_for_status_def
        response_json_def json_get_def)
  have unusable: ?none
    if "url_quote E t = Inr q" "requests_get E (request_url url q) = Inr resp"
      "body resp = Some (JObj kvs)" "dict_lookup kvs (asc ''news'') = Some v"
      "\<not> truthy v \<or> (\<forall>s. v \<noteq> JStr s)"
    using that
    by (cases v)
      (simp_all add: fetch_keywords_from_api_def fetch_try_def bind_exn_def raise_for_status_def
        response_json_def json_get_def re_findall_keywords_def)
  from fetch_returns [of E t url] quote_raised get_raised not_found bad_status no_json
    not_object no_field unusable
  show ?thesis by blast
qed


theorem fetch_never_raises_witness:
  "requests_get (demo_env (Inl RequestException) []) (request_url default_api_url (asc ''GST''))
     = Inl RequestException
   \<and> fetch_keywords_from_api (demo_env (Inl RequestException) []) (asc ''GST'') default_api_url
     = Inr ([], [])
   \<and> fetch_keywords_from_api (demo_env (Inr \<lparr>status_code = 404, body = None\<rparr>) [])
       (asc ''GST'') default_api_url = Inr ([], [])
   \<and> fetch_keywords_from_api
       (demo_env (Inr \<lparr>status_code = 503, body = Some (JObj [(asc ''news'', JStr (asc ''Modi''))])\<rparr>) [])
       (asc ''GST'') default_api_url = Inr ([], [])
   \<and> fetch_keywords_from_api (demo_env (Inr \<lparr>status_code = 200, body = None\<rparr>) [])
       (asc ''GST'') default_api_url = Inr ([], [])
   \<and> fetch_keywords_from_api (demo_env (Inr \<lparr>status_code = 200, body = Some (JArr [])\<rparr>) [])
       (asc ''GST'') default_api_url = Inr ([], [])
   \<and> fetch_keywords_from_api (demo_env (Inr \<lparr>status_code = 200, body = Some (JObj [])\<rparr>) [])
       (asc ''GST'') default_api_url = Inr ([], [])
   \<and> fetch_keywords_from_api
       (demo_env (Inr \<lparr>status_code = 200, body = Some (JObj [(asc ''news'', JNum 5)])\<rparr>) [])
       (asc ''GST'') default_api_url = Inr ([], [])"
proof -
  let ?t = "asc ''GST''"
  let ?u = "request_url default_api_url ?t"
  have q: "url_quote (demo_env lookup []) ?t = Inr ?t" for lookup
    by (simp add: demo_env_def)
  have g: "requests_get (demo_env lookup []) ?u = lookup" for lookup
    by (simp add: demo_env_def)
  have news5: "dict_lookup [(asc ''news'', JNum 5)] (asc ''news'') = Some (JNum 5)"
    by (simp add: dict_lookup_def)
  have r1: "fetch_keywords_from_api (demo_env (Inl RequestException) []) ?t default_api_url
              = Inr ([], [])"
    using fetch_never_raises [of "demo_env (Inl RequestException) []" ?t default_api_url
        RequestException ?t] q g
    by simp
  have r2: "fetch_keywords_from_api (demo_env (Inr \<lparr>status_code = 404, body = None\<rparr>) [])
              ?t default_api_url = Inr ([], [])"
    using fetch_never_raises [of "demo_env (Inr \<lparr>status_code = 404, body = None\<rparr>) []" ?t
        default_api_url _ ?t "\<lparr>status_code = 404, body = None\<rparr>"] q g
    by simp
  have r3: "fetch_keywords_from_api
       (demo_env (Inr \<lparr>status_code = 503, body = Some (JObj [(asc ''news'', JStr (asc ''Modi''))])\<rparr>) [])
       ?t default_api_url = Inr ([], [])"
    using fetch_never_raises [of
        "demo_env (Inr \<lparr>status_code = 503, body = Some (JObj [(asc ''news'', JStr (asc ''Modi''))])\<rparr>) []"
        ?t default_api_url _ ?t
        "\<lparr>status_code = 503, body = Some (JObj [(asc ''news'', JStr (asc ''Modi''))])\<rparr>"] q g
    by simp
  have r4: "fetch_keywords_from_api (demo_env (Inr \<lparr>status_code = 200, body = None\<rparr>) [])
              ?t default_api_url = Inr ([], [])"
    using fetch_never_raises [of "demo_env (Inr \<lparr>status_code = 200, body = None\<rparr>) []" ?t
        default_api_url _ ?t "\<lparr>status_code = 200, body = None\<rparr>"] q g
    by simp
  have r5: "fetch_keywords_from_api (demo_env (Inr \<lparr>status_code = 200, body = Some (JArr [])\<rparr>) [])
              ?t default_api_url = Inr ([], [])"
    using fetch_never_raises [of "demo_env (Inr \<lparr>status_code = 200, body = Some (JArr [])\<rparr>) []" ?t
        default_api_url _ ?t "\<lparr>status_code = 200, body = Some (JArr [])\<rparr>" "JArr []"] q g
    by simp
  have r6: "fetch_keywords_from_api (demo_env (Inr \<lparr>status_code = 200, body = Some (JObj [])\<rparr>) [])
              ?t default_api_url = Inr ([], [])"
    using fetch_never_raises [of "demo_env (Inr \<lparr>status_code = 200, body = Some (JObj [])\<rparr>) []" ?t
        default_api_url _ ?t "\<lparr>status_code = 200, body = Some (JObj [])\<rparr>" _ "[]"] q g
    by (simp add: dict_lookup_def)
  have r7: "fetch_keywords_from_api
       (demo_env (Inr \<lparr>status_code = 200, body = Some (JObj [(asc ''news'', JNum 5)])\<rparr>) [])
       ?t default_api_url = Inr ([], [])"
    using fetch_never_raises [of
        "demo_env (Inr \<lparr>status_code = 200, body = Some (JObj [(asc ''news'', JNum 5)])\<rparr>) []" ?t
        default_api_url _ ?t "\<lparr>status_code = 200, body = Some (JObj [(asc ''news'', JNum 5)])\<rparr>"
        _ "[(asc ''news'', JNum 5)]" "JNum 5"] q g news5
    by simp
  from g [of "Inl RequestException"] r1 r2 r3 r4 r5 r6 r7 show ?thesis by simp
qed

lemma findall_modi:
  "findall_keywords U None (asc ''Modi announced Modi visits Delhi'')
     = [asc ''Modi'', asc ''Modi'', asc ''Delhi'']"
  by code_simp

lemma first_seen_modi:
  "first_seen [asc ''Modi'', asc ''Modi'', asc ''Delhi''] = [asc ''Modi'', asc ''Delhi'']"
  by (simp add: asc_def)

text \<open>
  C4 fails as stated. The pattern begins and ends with \<open>\b\<close>, so a capital letter inside
  a word starts no match: in \<open>iPhone launch\<close> the substring \<open>Phone\<close> is a capital letter
  followed by letters, and the adapter returns no keyword.
\<close>

theorem fetch_skips_inner_capital:
  "fetch_keywords_from_api (demo_env (Inr (news_response (asc ''iPhone launch''))) [])
     (asc ''iPhone'') default_api_url = Inr ([], asc ''iPhone launch'')
   \<and> capitalized_word (asc ''Phone'')
   \<and> asc ''iPhone launch'' = asc ''i'' @ asc ''Phone'' @ asc '' launch''"
  by code_simp

text \<open>
  C4, as amended. For a successful response whose \<open>news\<close> member is a non-empty string,
  the adapter returns the matches of the pattern, deduplicated in first-seen order,
  together with the raw content. Every match is a capitalized word (a capital letter
  followed by one or more letters, digits or ampersands) that stands in the content at
  word boundaries, and every capitalized word of the content that does not end in an
  ampersand and stands between delimiters (or the ends of the text) is among the
  matches. For the content \<open>Modi announced Modi visits Delhi\<close> the list is
  \<open>["Modi", "Delhi"]\<close>.
\<close>

theorem fetch_extracts_capitalized_words:
  assumes "url_quote E t = Inr q"
    and "requests_get E (request_url url q) = Inr resp"
    and "status_code resp \<noteq> 404"
    and "\<not> (400 \<le> status_code resp \<and> status_code resp < 600)"
    and "body resp = Some (JObj kvs)"
    and "dict_lookup kvs (asc ''news'') = Some (JStr content)"
    and "content \<noteq> []"
  shows "fetch_keywords_from_api E t url
           = Inr (first_seen (findall_keywords (udb E) None content), content)
       \<and> distinct (first_seen (findall_keywords (udb E) None content))
       \<and> set (first_seen (findall_keywords (udb E) None content))
           = set (findall_keywords (udb E) None content)
       \<and> (\<forall>k\<in>set (findall_keywords (udb E) None content).
             capitalized_word k
             \<and> (\<exists>pre post. content = pre @ k @ post \<and> at_word_boundaries (udb E) pre k post))
       \<and> (\<forall>pre w post.
             content = pre @ w @ post \<and> capitalized_word w \<and> last w \<noteq> 38
             \<and> (pre = [] \<or> delimiter (udb E) (last pre))
             \<and> (post = [] \<or> delimiter (udb E) (hd post))
             \<longrightarrow> w \<in> set (findall_keywords (udb E) None content))
       \<and> (content = asc ''Modi announced Modi visits Delhi''
             \<longrightarrow> fetch_keywords_from_api E t url = Inr ([asc ''Modi'', asc ''Delhi''], content))"
proof -
  let ?found = "findall_keywords (udb E) None content"
  have result: "fetch_keywords_from_api E t url = Inr (first_seen ?found, content)"
    using fetch_same_if_returned [OF fetch_try_success [OF assms]]
    by (simp add: fromkeys_first_seen)
  have sound: "\<forall>k\<in>set ?found. capitalized_word k
      \<and> (\<exists>pre post. content = pre @ k @ post \<and> at_word_boundaries (udb E) pre k post)"
    using findall_keywords_at_boundaries [of _ "udb E" content] by blast
  have complete: "w \<in> set ?found"
    if "content = pre @ w @ post" "capitalized_word w" "last w \<noteq> 38"
      "pre = [] \<or> delimiter (udb E) (last pre)" "post = [] \<or> delimiter (udb E) (hd post)"
    for pre w post
  proof (rule findall_keywords_complete [OF that(2,3,5) _ _ that(1)])
    show "pre = [] \<longrightarrow> \<not> is_word_opt (udb E) None" by (simp add: is_word_opt_def)
    show "pre \<noteq> [] \<longrightarrow> delimiter (udb E) (last pre)" using that(4) by blast
  qed
  have example: "fetch_keywords_from_api E t url = Inr ([asc ''Modi'', asc ''Delhi''], content)"
    if "content = asc ''Modi announced Modi visits Delhi''"
    using result unfolding that findall_modi first_seen_modi .
  from result sound complete example distinct_first_seen [of ?found] set_first_seen [of ?found]
  show ?thesis by blast
qed


theorem fetch_extracts_capitalized_words_witness:
  "fetch_keywords_from_api
     (demo_env (Inr (news_response (asc ''Modi announced Modi visits Delhi''))) [])
     (asc ''Modi'') default_api_url
   = Inr ([asc ''Modi'', asc ''Delhi''], asc ''Modi announced Modi visits Delhi'')"
proof -
  let ?content = "asc ''Modi announced Modi visits Delhi''"
  let ?E = "demo_env (Inr (news_response ?content)) []"
  have "url_quote ?E (asc ''Modi'') = Inr (asc ''Modi'')"
    and "requests_get ?E (request_url default_api_url (asc ''Modi'')) = Inr (news_response ?content)"
    and "status_code (news_response ?content) \<noteq> 404"
    and "\<not> (400 \<le> status_code (news_response ?content) \<and> status_code (news_response ?content) < 600)"
    and "body (news_response ?content) = Some (JObj [(asc ''news'', JStr ?content)])"
    and "dict_lookup [(asc ''news'', JStr ?content)] (asc ''news'') = Some (JStr ?content)"
    and "?content \<noteq> []"
    by (simp_all add: demo_env_def news_response_def dict_lookup_def asc_def)
  from fetch_extracts_capitalized_words [OF this] show ?thesis by blast
qed

section \<open>Properties of the keyword expansion engine\<close>






















section \<open>Properties of the pipeline orchestrator\<close>






end
